theory Spec2Isabelle
  imports Main "HOL-Library.Sublist"
begin

section \<open>Python string and path primitives used by both programs\<close>

text \<open>
  Python strings are modelled as \<^typ>\<open>string\<close>; a \<^typ>\<open>char\<close> stands for one code point
  below 256. \<open>str.lower\<close> on that range lowers the ASCII capitals and the Latin-1
  capitals (U+00C0 .. U+00DE without the multiplication sign U+00D7).
\<close>

definition lower_char :: "char \<Rightarrow> char" where
  "lower_char c =
     (let n = (of_char c :: nat) in
      if (65 \<le> n \<and> n \<le> 90) \<or> (192 \<le> n \<and> n \<le> 222 \<and> n \<noteq> 215)
      then char_of (n + 32) else c)"

definition lower :: "string \<Rightarrow> string" where
  "lower s = map lower_char s"

definition startswith :: "string \<Rightarrow> string \<Rightarrow> bool" where
  "startswith s p = prefix p s"

text \<open>\<open>s.endswith(t)\<close> for a tuple \<open>t\<close>: some member of the tuple is a suffix of \<open>s\<close>.\<close>

definition endswith :: "string \<Rightarrow> string list \<Rightarrow> bool" where
  "endswith s ps = list_ex (\<lambda>p. suffix p s) ps"

text \<open>\<open>s.rfind(c)\<close>: the index of the last occurrence of \<open>c\<close>, or \<open>-1\<close>.\<close>

definition rfind :: "string \<Rightarrow> char \<Rightarrow> int" where
  "rfind s c =
     (if c \<in> set s
      then int (length s) - 1 - int (length (takeWhile (\<lambda>x. x \<noteq> c) (rev s)))
      else - 1)"

text \<open>
  \<open>os.path.splitext\<close> (\<open>genericpath._splitext\<close> with \<open>sep = '/'\<close>, no \<open>altsep\<close>,
  \<open>extsep = '.'\<close>):
  \<^verbatim>\<open>
    sepIndex = p.rfind(sep)
    dotIndex = p.rfind(extsep)
    if dotIndex > sepIndex:
        filenameIndex = sepIndex + 1
        while filenameIndex < dotIndex:
            if p[filenameIndex:filenameIndex+1] != extsep:
                return p[:dotIndex], p[dotIndex:]
            filenameIndex += 1
    return p, p[:0]
  \<close>
  The loop is \<open>splitext_loop\<close>: it answers whether the return inside the loop is taken.
\<close>

function splitext_loop :: "string \<Rightarrow> nat \<Rightarrow> nat \<Rightarrow> bool" where
  "splitext_loop p filenameIndex dotIndex =
     (if filenameIndex < dotIndex
      then (if p ! filenameIndex \<noteq> CHR ''.'' then True
            else splitext_loop p (Suc filenameIndex) dotIndex)
      else False)"
  by pat_completeness auto
termination
  by (relation "measure (\<lambda>(p, i, d). d - i)") auto

declare splitext_loop.simps [simp del]

definition splitext :: "string \<Rightarrow> string \<times> string" where
  "splitext p =
     (let sepIndex = rfind p CHR ''/'';
          dotIndex = rfind p CHR ''.''
      in if dotIndex > sepIndex \<and> splitext_loop p (nat (sepIndex + 1)) (nat dotIndex)
         then (take (nat dotIndex) p, drop (nat dotIndex) p)
         else (p, []))"

text \<open>\<open>os.path.join(a, b)\<close> of \<open>posixpath\<close>, for two components.\<close>

definition path_join :: "string \<Rightarrow> string \<Rightarrow> string" where
  "path_join a b =
     (if startswith b ''/'' then b
      else if a = [] \<or> endswith a [''/''] then a @ b
      else a @ ''/'' @ b)"


subsection \<open>Facts about the string and path primitives\<close>

lemma rfind_lt_length: "rfind s c < int (length s)"
  by (simp add: rfind_def)

lemma rfind_append_absent:
  assumes "c \<notin> set t"
  shows "rfind (b @ t) c = rfind b c"
proof (cases "c \<in> set b")
  case True
  have "takeWhile (\<lambda>x. x \<noteq> c) (rev t @ rev b) = rev t @ takeWhile (\<lambda>x. x \<noteq> c) (rev b)"
    by (rule takeWhile_append2) (use assms in auto)
  then show ?thesis using True by (simp add: rfind_def)
next
  case False
  then show ?thesis using assms by (simp add: rfind_def)
qed

lemma rfind_last_occurrence:
  assumes "c \<notin> set t"
  shows "rfind (b @ c # t) c = int (length b)"
proof -
  have "takeWhile (\<lambda>x. x \<noteq> c) (rev t @ c # rev b) = rev t"
    using assms by (auto simp: takeWhile_tail)
  then show ?thesis by (simp add: rfind_def)
qed

lemma splitext_loop_iff:
  "splitext_loop p i d \<longleftrightarrow> (\<exists>k. i \<le> k \<and> k < d \<and> p ! k \<noteq> CHR ''.'')"
proof (induction p i d rule: splitext_loop.induct)
  case (1 p i d)
  show ?case
  proof (cases "i < d")
    case False
    then show ?thesis by (subst splitext_loop.simps) auto
  next
    case True
    show ?thesis
    proof (cases "p ! i \<noteq> CHR ''.''")
      case True
      with \<open>i < d\<close> show ?thesis by (subst splitext_loop.simps) auto
    next
      case False
      then have eq: "p ! i = CHR ''.''" by simp
      have "splitext_loop p i d = splitext_loop p (Suc i) d"
        using \<open>i < d\<close> eq by (subst splitext_loop.simps) simp
      also have "\<dots> \<longleftrightarrow> (\<exists>k. Suc i \<le> k \<and> k < d \<and> p ! k \<noteq> CHR ''.'')"
        using "1.IH" \<open>i < d\<close> eq by simp
      also have "\<dots> \<longleftrightarrow> (\<exists>k. i \<le> k \<and> k < d \<and> p ! k \<noteq> CHR ''.'')"
        using eq by (metis Suc_leD Suc_leI le_neq_implies_less)
      finally show ?thesis .
    qed
  qed
qed

text \<open>
  A name \<open>b.e\<close> whose extension \<open>e\<close> has neither a dot nor a slash, and whose last path
  component has a character other than a dot before the extension, is split at that dot.
\<close>

lemma splitext_at_last_dot:
  assumes e: "CHR ''.'' \<notin> set e" "CHR ''/'' \<notin> set e"
    and k: "rfind b CHR ''/'' < int k" "k < length b" "b ! k \<noteq> CHR ''.''"
  shows "splitext (b @ CHR ''.'' # e) = (b, CHR ''.'' # e)"
proof -
  let ?p = "b @ CHR ''.'' # e"
  have dot: "rfind ?p CHR ''.'' = int (length b)"
    using e(1) by (rule rfind_last_occurrence)
  have "CHR ''/'' \<notin> set (CHR ''.'' # e)" using e(2) by simp
  then have sep: "rfind ?p CHR ''/'' = rfind b CHR ''/''"
    by (rule rfind_append_absent)
  have lt: "rfind b CHR ''/'' < int (length b)" by (rule rfind_lt_length)
  have "nat (rfind b CHR ''/'' + 1) \<le> k" using k(1) by linarith
  moreover have "?p ! k \<noteq> CHR ''.''" using k(2,3) by (simp add: nth_append)
  ultimately have "splitext_loop ?p (nat (rfind b CHR ''/'' + 1)) (length b)"
    using k(2) unfolding splitext_loop_iff by blast
  then show ?thesis
    using dot sep lt by (simp add: splitext_def Let_def)
qed

section \<open>The content type the storage client gives an uploaded file\<close>

text \<open>
  \<open>Blob.upload_from_filename(filename, content_type=None)\<close> of the storage client
  library settles the content type of the object with \<open>_get_content_type\<close>:
  \<^verbatim>\<open>
    if content_type is None:
        content_type = self.content_type          # None for a new blob
    if content_type is None and filename is not None:
        content_type, _ = mimetypes.guess_type(filename)
    if content_type is None:
        content_type = "application/octet-stream"
  \<close>
  and \<open>mimetypes.guess_type\<close> of the standard library, in the form of current CPython
  releases, for a path without a URL scheme (the local paths of the service start with a
  slash):
  \<^verbatim>\<open>
    base, ext = posixpath.splitext(url)
    while (ext_lower := ext.lower()) in self.suffix_map:
        base, ext = posixpath.splitext(base + self.suffix_map[ext_lower])
    if ext in self.encodings_map:
        encoding = self.encodings_map[ext]
        base, ext = posixpath.splitext(base)
    ext = ext.lower()
    if ext in types_map:
        return types_map[ext], encoding
    return None, encoding
  \<close>
  \<open>suffix_map\<close> and \<open>encodings_map\<close> are the module's constants; \<open>types_map\<close> depends on
  the MIME files of the machine and is a parameter.
\<close>

definition suffix_map :: "(string \<times> string) list" where
  "suffix_map =
     [(''.svgz'', ''.svg.gz''), (''.tgz'', ''.tar.gz''), (''.taz'', ''.tar.gz''),
      (''.tz'', ''.tar.gz''), (''.tbz2'', ''.tar.bz2''), (''.txz'', ''.tar.xz'')]"

definition encodings_map :: "(string \<times> string) list" where
  "encodings_map =
     [(''.gz'', ''gzip''), (''.Z'', ''compress''), (''.bz2'', ''bzip2''),
      (''.xz'', ''xz''), (''.br'', ''br'')]"

lemma splitext_two_suffixes:
  assumes m: "m \<in> {''svg'', ''tar''}" and e: "e \<in> {''gz'', ''bz2'', ''xz''}"
  shows "snd (splitext (base @ CHR ''.'' # m @ CHR ''.'' # e)) = CHR ''.'' # e"
proof -
  have e1: "CHR ''.'' \<notin> set e" "CHR ''/'' \<notin> set e" using e by auto
  have m1: "CHR ''/'' \<notin> set (CHR ''.'' # m)" using m by auto
  have "rfind (base @ CHR ''.'' # m) CHR ''/'' = rfind base CHR ''/''"
    using m1 by (rule rfind_append_absent)
  also have "\<dots> < int (length base)" by (rule rfind_lt_length)
  finally have k1: "rfind (base @ CHR ''.'' # m) CHR ''/'' < int (Suc (length base))"
    by simp
  have k2: "Suc (length base) < length (base @ CHR ''.'' # m)" using m by auto
  have k3: "(base @ CHR ''.'' # m) ! Suc (length base) \<noteq> CHR ''.''"
    using m by (auto simp: nth_append)
  have "splitext ((base @ CHR ''.'' # m) @ CHR ''.'' # e) = (base @ CHR ''.'' # m, CHR ''.'' # e)"
    using e1 k1 k2 k3 by (rule splitext_at_last_dot)
  then show ?thesis by simp
qed

lemma splitext_suffix_value:
  assumes "(key, s) \<in> set suffix_map"
  shows "snd (splitext (base @ s)) \<in> {''.gz'', ''.bz2'', ''.xz''}"
proof -
  from assms have "s = ''.svg.gz'' \<or> s = ''.tar.gz'' \<or> s = ''.tar.bz2'' \<or> s = ''.tar.xz''"
    unfolding suffix_map_def by auto
  then show ?thesis
    using splitext_two_suffixes [of "''svg''" "''gz''" base]
      splitext_two_suffixes [of "''tar''" "''gz''" base]
      splitext_two_suffixes [of "''tar''" "''bz2''" base]
      splitext_two_suffixes [of "''tar''" "''xz''" base]
    by auto
qed

lemma lower_encoding_suffixes:
  "lower ''.gz'' = ''.gz''" "lower ''.bz2'' = ''.bz2''" "lower ''.xz'' = ''.xz''"
  by code_simp+

lemma suffix_value_not_key:
  assumes "(key, s) \<in> set suffix_map"
  shows "map_of suffix_map (lower (snd (splitext (base @ s)))) = None"
proof -
  have "lower (snd (splitext (base @ s))) \<in> {''.gz'', ''.bz2'', ''.xz''}"
    using splitext_suffix_value [OF assms, of base] lower_encoding_suffixes by auto
  then show ?thesis unfolding suffix_map_def by auto
qed

function suffix_loop :: "string \<Rightarrow> string \<Rightarrow> string \<times> string" where
  "suffix_loop base ext =
     (case map_of suffix_map (lower ext) of
        None \<Rightarrow> (base, ext)
      | Some s \<Rightarrow> suffix_loop (fst (splitext (base @ s))) (snd (splitext (base @ s))))"
  by pat_completeness auto
termination
proof (relation "measure (\<lambda>(base, ext). if map_of suffix_map (lower ext) = None then 0 else 1)")
  show "wf (measure (\<lambda>(base, ext). if map_of suffix_map (lower ext) = None then 0 else (1::nat)))"
    by simp
next
  fix base ext s
  assume a: "map_of suffix_map (lower ext) = Some s"
  then have "(lower ext, s) \<in> set suffix_map" by (rule map_of_SomeD)
  then have "map_of suffix_map (lower (snd (splitext (base @ s)))) = None"
    by (rule suffix_value_not_key)
  with a show "((fst (splitext (base @ s)), snd (splitext (base @ s))), base, ext)
      \<in> measure (\<lambda>(base, ext). if map_of suffix_map (lower ext) = None then 0 else 1)"
    by (simp add: case_prod_beta)
qed

declare suffix_loop.simps [simp del]

definition guess_type :: "(string \<rightharpoonup> string) \<Rightarrow> string \<Rightarrow> string option" where
  "guess_type types_map url =
     (let (base, ext) = splitext url;
          (base, ext) = suffix_loop base ext;
          (base, ext) = (if map_of encodings_map ext \<noteq> None then splitext base
                         else (base, ext))
      in types_map (lower ext))"

definition get_content_type ::
    "(string \<rightharpoonup> string) \<Rightarrow> string option \<Rightarrow> string option \<Rightarrow> string" where
  "get_content_type types_map content_type file_name =
     (case content_type of
        Some t \<Rightarrow> t
      | None \<Rightarrow>
          (case file_name of
             None \<Rightarrow> ''application/octet-stream''
           | Some f \<Rightarrow>
               (case guess_type types_map f of
                  Some t \<Rightarrow> t
                | None \<Rightarrow> ''application/octet-stream'')))"

section \<open>Cloud-Run-Function/main.py: the transcription trigger\<close>

definition OUTPUT_FOLDER :: string where
  "OUTPUT_FOLDER = ''transcriptions/''"

definition supported_extensions :: "string list" where
  "supported_extensions =
     [''.mp4'', ''.mov'', ''.avi'', ''.mpg'', ''.mpeg'', ''.mkv'', ''.webm'']"

text \<open>The request handed to \<open>video_client.annotate_video\<close>.\<close>

record annotate_request =
  input_uri :: string
  output_uri :: string
  language_code :: string
  enable_automatic_punctuation :: bool
  enable_speaker_diarization :: bool

text \<open>
  The Video Intelligence library is outside the program. Its two calls are parameters:
  the constructor \<open>VideoIntelligenceServiceClient()\<close> either raises (\<open>Some\<close> of the
  message) or returns, and \<open>annotate_video\<close> either raises (\<open>Inl\<close>) or returns an
  operation, of which the code reads the name (\<open>Inr\<close>).
\<close>

record vi_env =
  client_ctor_error :: "string option"
  annotate_video :: "annotate_request \<Rightarrow> string + string"

text \<open>How an invocation of the handler ends, as seen by the event-delivery system.\<close>

datatype outcome = Returned | Raised string

text \<open>
  \<open>process_video_transcription(cloud_event)\<close>. The event data is the dict \<open>data\<close>; the
  result is how the call ends and the list of requests passed to \<open>annotate_video\<close>
  (the transcription jobs whose submission was attempted). \<open>print\<close> is left out.
  The client is constructed before the \<open>try\<close> block, the request is sent inside it.
  The two configuration objects built in between are plain messages with constant
  fields; they are taken not to raise.
\<close>

definition process_video_transcription ::
    "vi_env \<Rightarrow> (string \<rightharpoonup> string) \<Rightarrow> outcome \<times> annotate_request list" where
  "process_video_transcription env data =
     (case (data ''bucket'', data ''name'') of
        (Some bucket_name, Some file_name) \<Rightarrow>
          if bucket_name = [] \<or> file_name = [] then (Returned, [])
          else if startswith file_name OUTPUT_FOLDER then (Returned, [])
          else if \<not> endswith (lower file_name) supported_extensions then (Returned, [])
          else
            let gcs_input_uri = ''gs://'' @ bucket_name @ ''/'' @ file_name;
                base_name = fst (splitext file_name);
                gcs_output_uri =
                  ''gs://'' @ bucket_name @ ''/'' @ OUTPUT_FOLDER @ base_name @ ''.json''
            in (case client_ctor_error env of
                  Some e \<Rightarrow> (Raised e, [])
                | None \<Rightarrow>
                    let request = \<lparr> input_uri = gcs_input_uri,
                                    output_uri = gcs_output_uri,
                                    language_code = ''en-US'',
                                    enable_automatic_punctuation = True,
                                    enable_speaker_diarization = True \<rparr>
                    in (case annotate_video env request of
                          Inr operation_name \<Rightarrow> (Returned, [request])
                        | Inl e \<Rightarrow> (Returned, [request])))
      | _ \<Rightarrow> (Returned, []))"

text \<open>
  The extension of an object name in the words of the specification: the text after the
  last dot of the name (empty when the name has no dot). It is used to state the
  extension claims and is compared with the suffix test of the code.
\<close>

definition spec_extension :: "string \<Rightarrow> string" where
  "spec_extension file_name =
     (if CHR ''.'' \<in> set file_name
      then rev (takeWhile (\<lambda>x. x \<noteq> CHR ''.'') (rev file_name))
      else [])"

definition spec_video_extensions :: "string list" where
  "spec_video_extensions = [''mp4'', ''mov'', ''avi'', ''mpg'', ''mpeg'', ''mkv'', ''webm'']"

section \<open>Flask-VM-App/app.py: the conversion service\<close>

definition INPUT_BUCKET_NAME :: string where
  "INPUT_BUCKET_NAME = ''video-image-input-bucket''"

definition OUTPUT_BUCKET_NAME :: string where
  "OUTPUT_BUCKET_NAME = ''video-image-output-bucket''"

definition TEMP_PROCESSING_DIR :: string where
  "TEMP_PROCESSING_DIR = ''/tmp/videoconverter_processing''"

subsection \<open>The world the service acts on\<close>

type_synonym bytes = string

record gcs_object =
  obj_data :: bytes
  obj_content_type :: "string option"

datatype bucket_role = InputBucket | OutputBucket

text \<open>
  Every call that leaves the process is recorded: a store write with the
  \<open>content_type\<close> argument it was given, a store read into a local path, an existence
  check, a run of the transcoder, and a removal of a local file.
\<close>

datatype io_event =
    StorePut bucket_role string "string option"
  | StoreGet bucket_role string string
  | StoreExists bucket_role string
  | Transcode string string
  | LocalRemove string

record world =
  input_bucket :: "string \<rightharpoonup> gcs_object"
  output_bucket :: "string \<rightharpoonup> gcs_object"
  local_files :: "string \<rightharpoonup> bytes"
  io_log :: "io_event list"

datatype response = Redirect string | Abort nat string

text \<open>The uploaded file (\<open>werkzeug\<close>'s \<open>FileStorage\<close>) and the request.\<close>

record file_storage =
  filename :: string
  stream :: bytes
  file_content_type :: string

record request =
  files :: "string \<rightharpoonup> file_storage"
  form :: "string \<rightharpoonup> string"

text \<open>
  What the calls outside the program answer, as parameters of one request: whether the
  module-level storage client was built, the string of the fresh \<open>uuid.uuid4()\<close>, whether
  each store call raises, the file a failed download leaves behind, how \<open>ffmpeg\<close> ends
  (\<open>ffmpeg.Error\<close> with its \<open>stderr\<close>, or another exception) and the file it leaves at
  the output path, the text of the \<open>FileNotFoundError\<close> for a path, the MIME table of
  the machine, and for which paths \<open>os.remove\<close> raises \<open>OSError\<close>.
\<close>

datatype download_result = DlOk | DlNotFound | DlError string

datatype ffmpeg_result = FfOk | FfError "string option" | FfException string

record conv_env =
  storage_client_ok :: bool
  uuid4 :: string
  upload_from_file_error :: "string option"
  download_to_filename_result :: download_result
  download_leaves_file :: "bytes option"
  ffmpeg_run_result :: ffmpeg_result
  ffmpeg_leaves_file :: "bytes option"
  upload_from_filename_error :: "string option"
  file_not_found_message :: "string \<Rightarrow> string"
  types_map :: "string \<rightharpoonup> string"
  os_remove_fails :: "string \<Rightarrow> bool"

definition log_io :: "io_event \<Rightarrow> world \<Rightarrow> world" where
  "log_io ev w = w\<lparr>io_log := io_log w @ [ev]\<rparr>"

text \<open>
  The recurring cleanup
  \<^verbatim>\<open>
    if os.path.exists(path):
        try: os.remove(path)
        except OSError as rm_err: logging.warning(...)
  \<close>
\<close>

definition remove_if_exists :: "conv_env \<Rightarrow> string \<Rightarrow> world \<Rightarrow> world" where
  "remove_if_exists env path w =
     (if local_files w path \<noteq> None
      then (if os_remove_fails env path then log_io (LocalRemove path) w
            else log_io (LocalRemove path) (w\<lparr>local_files := (local_files w)(path := None)\<rparr>))
      else w)"

subsection \<open>Job identifiers\<close>



subsection \<open>Names derived for one conversion job (lines 138 to 154)\<close>

record job_names =
  gcs_input_filename :: string
  gcs_output_filename :: string
  local_input_path :: string
  local_output_path :: string
  input_blob_name :: string
  output_blob_name :: string

definition derive_names :: "string \<Rightarrow> string \<Rightarrow> string \<Rightarrow> job_names" where
  "derive_names job_id original_filename target_format =
     (let base_name = fst (splitext original_filename);
          gcs_input_filename = job_id @ ''_'' @ original_filename;
          gcs_output_filename = job_id @ ''_'' @ base_name @ ''.'' @ target_format
      in \<lparr> gcs_input_filename = gcs_input_filename,
           gcs_output_filename = gcs_output_filename,
           local_input_path = path_join TEMP_PROCESSING_DIR (''input_'' @ gcs_input_filename),
           local_output_path = path_join TEMP_PROCESSING_DIR (''output_'' @ gcs_output_filename),
           input_blob_name = ''uploads/'' @ gcs_input_filename,
           output_blob_name = ''converted/'' @ gcs_output_filename \<rparr>)"

subsection \<open>The four steps of \<open>convert_video\<close>\<close>

text \<open>
  Uploading the input: \<open>input_blob.upload_from_file(video_file,
  content_type=video_file.content_type)\<close>; any exception aborts with 500.
\<close>

definition upload_input_step ::
    "conv_env \<Rightarrow> file_storage \<Rightarrow> job_names \<Rightarrow> world \<Rightarrow> response option \<times> world" where
  "upload_input_step env video_file n w =
     (let w1 = log_io (StorePut InputBucket (input_blob_name n)
                         (Some (file_content_type video_file))) w
      in case upload_from_file_error env of
           Some e \<Rightarrow> (Some (Abort 500 (''Failed to upload input file to storage: '' @ e)), w1)
         | None \<Rightarrow>
             (None, w1\<lparr>input_bucket := (input_bucket w1)(input_blob_name n \<mapsto>
                        \<lparr> obj_data = stream video_file,
                          obj_content_type = Some (file_content_type video_file) \<rparr>)\<rparr>))"

text \<open>
  Fetching it back: \<open>input_blob.download_to_filename(local_input_path)\<close>. On
  \<open>NotFound\<close> the handler aborts at once; on any other exception it removes the local
  input file first. A download of an object that is not in the bucket is \<open>NotFound\<close>.
\<close>

definition leave_file :: "string \<Rightarrow> bytes option \<Rightarrow> world \<Rightarrow> world" where
  "leave_file path left w =
     (case left of None \<Rightarrow> w
      | Some b \<Rightarrow> w\<lparr>local_files := (local_files w)(path \<mapsto> b)\<rparr>)"

definition download_input_step ::
    "conv_env \<Rightarrow> job_names \<Rightarrow> world \<Rightarrow> response option \<times> world" where
  "download_input_step env n w =
     (let w1 = log_io (StoreGet InputBucket (input_blob_name n) (local_input_path n)) w;
          not_found = (Some (Abort 500 ''Internal server error: Uploaded file disappeared.''),
                       leave_file (local_input_path n) (download_leaves_file env) w1)
      in case download_to_filename_result env of
           DlNotFound \<Rightarrow> not_found
         | DlError e \<Rightarrow>
             (Some (Abort 500 (''Failed to retrieve file from storage for processing: '' @ e)),
              remove_if_exists env (local_input_path n)
                (leave_file (local_input_path n) (download_leaves_file env) w1))
         | DlOk \<Rightarrow>
             (case input_bucket w1 (input_blob_name n) of
                None \<Rightarrow> not_found
              | Some obj \<Rightarrow>
                  (None, w1\<lparr>local_files := (local_files w1)(local_input_path n \<mapsto> obj_data obj)\<rparr>)))"

text \<open>
  Converting: \<open>ffmpeg.input(local_input_path).output(local_output_path).run(...)\<close>.
  Both handlers remove the local input file, and only that file, before aborting.
\<close>

definition ffmpeg_step ::
    "conv_env \<Rightarrow> job_names \<Rightarrow> world \<Rightarrow> response option \<times> world" where
  "ffmpeg_step env n w =
     (let w1 = leave_file (local_output_path n) (ffmpeg_leaves_file env)
                 (log_io (Transcode (local_input_path n) (local_output_path n)) w)
      in case ffmpeg_run_result env of
           FfOk \<Rightarrow> (None, w1)
         | FfError stderr \<Rightarrow>
             (let error_message =
                    (case stderr of None \<Rightarrow> ''Unknown ffmpeg error''
                     | Some s \<Rightarrow> if s = [] then ''Unknown ffmpeg error'' else s)
              in (Some (Abort 500 (''Error during conversion: '' @ error_message)),
                  remove_if_exists env (local_input_path n) w1))
         | FfException e \<Rightarrow>
             (Some (Abort 500 (''Unexpected error during conversion processing: '' @ e)),
              remove_if_exists env (local_input_path n) w1))"

text \<open>
  Uploading the result and cleaning up (lines 219 to 255):
  \<^verbatim>\<open>
    if target_format.lower() == 'mov':
        output_content_type = 'video/quicktime'
    elif target_format.lower() == 'avi':
        output_content_type = 'video/x-msvideo'
    output_blob.upload_from_filename(local_output_path)
  \<close>
  The variable \<open>output_content_type\<close> is assigned and never read: the upload is called
  with the path alone, so its \<open>content_type\<close> argument is \<open>None\<close>, and the client
  library gives the object the type it derives from the local file name
  (\<open>get_content_type\<close>). The upload raises when the local output file does not exist.
  The \<open>finally\<close> block removes both local files whether or not the upload raised.
\<close>

definition output_content_type :: "string \<Rightarrow> string option" where
  "output_content_type target_format =
     (if lower target_format = ''mov'' then Some ''video/quicktime''
      else if lower target_format = ''avi'' then Some ''video/x-msvideo''
      else None)"

definition upload_output_step ::
    "conv_env \<Rightarrow> string \<Rightarrow> job_names \<Rightarrow> world \<Rightarrow> response option \<times> world" where
  "upload_output_step env target_format n w =
     (let assigned_only = output_content_type target_format;
          w1 = log_io (StorePut OutputBucket (output_blob_name n) None) w;
          (err, w2) =
            (case local_files w1 (local_output_path n) of
               None \<Rightarrow> (Some (file_not_found_message env (local_output_path n)), w1)
             | Some b \<Rightarrow>
                 (case upload_from_filename_error env of
                    Some e \<Rightarrow> (Some e, w1)
                  | None \<Rightarrow>
                      (None, w1\<lparr>output_bucket := (output_bucket w1)(output_blob_name n \<mapsto>
                                 \<lparr> obj_data = b,
                                   obj_content_type =
                                     Some (get_content_type (types_map env) None
                                             (Some (local_output_path n))) \<rparr>)\<rparr>)));
          w3 = remove_if_exists env (local_output_path n)
                 (remove_if_exists env (local_input_path n) w2)
      in case err of
           Some e \<Rightarrow>
             (Some (Abort 500
                (''Conversion successful, but failed to upload output to storage: '' @ e)), w3)
         | None \<Rightarrow> (None, w3))"

subsection \<open>\<open>convert_video\<close>\<close>

text \<open>
  The request is checked for the file part, a non-empty filename and a non-empty
  \<open>format\<close> field; the format is not compared with any list. The job identifier is the
  fresh UUID. On success the response redirects to the download options of
  \<open>gcs_output_filename\<close> (the route with the name appended; the URL quoting of
  \<open>url_for\<close> is left out).
\<close>

definition convert_video :: "conv_env \<Rightarrow> request \<Rightarrow> world \<Rightarrow> response \<times> world" where
  "convert_video env request w =
     (if \<not> storage_client_ok env
      then (Abort 500 ''Server configuration error: Storage client unavailable.'', w)
      else case files request ''video'' of
        None \<Rightarrow> (Abort 400 ''Missing file.'', w)
      | Some video_file \<Rightarrow>
          (case form request ''format'' of
             None \<Rightarrow> (Abort 400 ''Invalid file or format selected.'', w)
           | Some target_format \<Rightarrow>
               if filename video_file = [] \<or> target_format = []
               then (Abort 400 ''Invalid file or format selected.'', w)
               else
                 let n = derive_names (uuid4 env) (filename video_file) target_format in
                 (case upload_input_step env video_file n w of
                    (Some r, w1) \<Rightarrow> (r, w1)
                  | (None, w1) \<Rightarrow>
                 (case download_input_step env n w1 of
                    (Some r, w2) \<Rightarrow> (r, w2)
                  | (None, w2) \<Rightarrow>
                 (case ffmpeg_step env n w2 of
                    (Some r, w3) \<Rightarrow> (r, w3)
                  | (None, w3) \<Rightarrow>
                 (case upload_output_step env target_format n w3 of
                    (Some r, w4) \<Rightarrow> (r, w4)
                  | (None, w4) \<Rightarrow>
                      (Redirect (''/download_options/'' @ gcs_output_filename n), w4)))))))"

subsection \<open>\<open>download_options\<close>: the availability page\<close>

definition video_blob_name :: "string \<Rightarrow> string" where
  "video_blob_name identifier = ''converted/'' @ identifier"

definition transcription_filename :: "string \<Rightarrow> string" where
  "transcription_filename identifier = fst (splitext identifier) @ ''.json''"

definition transcription_blob_name :: "string \<Rightarrow> string" where
  "transcription_blob_name identifier =
     ''transcriptions/converted/'' @ transcription_filename identifier"

record options_page =
  video_filename :: string
  video_available :: bool
  video_download_url :: "string option"
  page_transcription_filename :: string
  transcription_available :: bool
  transcription_download_url :: "string option"

text \<open>
  Both existence checks go to the output bucket, and both are recorded. \<open>url_for\<close> is
  the route with the name appended (URL quoting is left out). \<open>exists_error\<close> is the
  exception a check raises, if any.
\<close>

definition download_options ::
    "bool \<Rightarrow> (string \<Rightarrow> string option) \<Rightarrow> string \<Rightarrow> world \<Rightarrow> (response + options_page) \<times> world" where
  "download_options client_ok exists_error identifier w =
     (if \<not> client_ok
      then (Inl (Abort 500 ''Server configuration error: Storage client unavailable.''), w)
      else
        (let w1 = log_io (StoreExists OutputBucket (video_blob_name identifier)) w;
             w2 = log_io (StoreExists OutputBucket (transcription_blob_name identifier)) w1;
             video_available = (output_bucket w (video_blob_name identifier) \<noteq> None);
             transcription_available =
               (output_bucket w (transcription_blob_name identifier) \<noteq> None)
         in (case exists_error (video_blob_name identifier) of
               Some e \<Rightarrow>
                 (Inl (Abort 500 ''Error checking for downloadable files in storage.''), w1)
             | None \<Rightarrow>
                 (case exists_error (transcription_blob_name identifier) of
                    Some e \<Rightarrow>
                      (Inl (Abort 500 ''Error checking for downloadable files in storage.''), w2)
                  | None \<Rightarrow>
                      (Inr \<lparr> video_filename = identifier,
                             video_available = video_available,
                             video_download_url =
                               (if video_available
                                then Some (''/download/video/'' @ identifier) else None),
                             page_transcription_filename = transcription_filename identifier,
                             transcription_available = transcription_available,
                             transcription_download_url =
                               (if transcription_available
                                then Some (''/download/transcription/''
                                           @ transcription_filename identifier)
                                else None) \<rparr>, w2)))))"

subsection \<open>A sample request, used to run the service on concrete inputs\<close>

text \<open>
  One upload \<open>clip.mp4\<close> with a chosen target format, in a world with empty buckets and
  no local file, where every outside call succeeds and the transcoder writes its output.
\<close>

definition sample_job_id :: string where
  "sample_job_id = ''0f8fad5b-d9cb-469f-a165-70867728950e''"


definition sample_env :: conv_env where
  "sample_env =
     \<lparr> storage_client_ok = True,
       uuid4 = sample_job_id,
       upload_from_file_error = None,
       download_to_filename_result = DlOk,
       download_leaves_file = None,
       ffmpeg_run_result = FfOk,
       ffmpeg_leaves_file = Some ''converted bytes'',
       upload_from_filename_error = None,
       file_not_found_message =
         (\<lambda>path. ''[Errno 2] No such file or directory: '' @ [CHR 0x27] @ path @ [CHR 0x27]),
       types_map = [''.mp4'' \<mapsto> ''video/mp4'', ''.mov'' \<mapsto> ''video/quicktime'',
                    ''.avi'' \<mapsto> ''video/x-msvideo'', ''.webm'' \<mapsto> ''video/webm''],
       os_remove_fails = (\<lambda>path. False) \<rparr>"

definition sample_request :: "string \<Rightarrow> request" where
  "sample_request target_format =
     \<lparr> files = [''video'' \<mapsto> \<lparr> filename = ''clip.mp4'', stream = ''source bytes'',
                                file_content_type = ''video/mp4'' \<rparr>],
       form = [''format'' \<mapsto> target_format] \<rparr>"

definition empty_world :: world where
  "empty_world = \<lparr> input_bucket = Map.empty, output_bucket = Map.empty,
                    local_files = Map.empty, io_log = [] \<rparr>"

text \<open>The same request when the transcoder fails after writing part of its output.\<close>

definition failing_transcode_env :: conv_env where
  "failing_transcode_env =
     sample_env\<lparr> ffmpeg_run_result := FfError (Some ''Invalid data found when processing input''),
                 ffmpeg_leaves_file := Some ''partial bytes'' \<rparr>"

section \<open>The extension test of the trigger\<close>

lemma lower_char_dot_iff: "lower_char c = CHR ''.'' \<longleftrightarrow> c = CHR ''.''"
proof (cases "(65 \<le> (of_char c :: nat) \<and> (of_char c :: nat) \<le> 90)
     \<or> (192 \<le> (of_char c :: nat) \<and> (of_char c :: nat) \<le> 222 \<and> (of_char c :: nat) \<noteq> 215)")
  case True
  then have lc: "lower_char c = char_of (of_char c + 32 :: nat)"
    unfolding lower_char_def Let_def by (rule if_P)
  have "of_char (lower_char c) = ((of_char c + 32) mod 256 :: nat)"
    unfolding lc by (rule of_char_of)
  also have "\<dots> = of_char c + 32" using True by (intro mod_less) linarith
  finally have a: "(of_char (lower_char c) :: nat) = of_char c + 32" .
  have b: "(of_char CHR ''.'' :: nat) = 46" by simp
  have "lower_char c \<noteq> CHR ''.''"
  proof
    assume "lower_char c = CHR ''.''"
    then have "(of_char c + 32 :: nat) = 46" using a b by simp
    then show False using True by linarith
  qed
  moreover have "c \<noteq> CHR ''.''"
  proof
    assume "c = CHR ''.''"
    then have "(of_char c :: nat) = 46" by simp
    then show False using True by linarith
  qed
  ultimately show ?thesis by simp
next
  case False
  then have "lower_char c = c"
    unfolding lower_char_def Let_def by (rule if_not_P)
  then show ?thesis by simp
qed

lemma dot_in_lower_iff: "CHR ''.'' \<in> set (lower s) \<longleftrightarrow> CHR ''.'' \<in> set s"
proof
  assume "CHR ''.'' \<in> set (lower s)"
  then obtain x where x: "x \<in> set s" "lower_char x = CHR ''.''"
    unfolding lower_def by (force simp: image_iff)
  from x(2) have "x = CHR ''.''" by (simp only: lower_char_dot_iff)
  with x(1) show "CHR ''.'' \<in> set s" by simp
next
  assume "CHR ''.'' \<in> set s"
  then have "lower_char CHR ''.'' \<in> set (lower s)"
    unfolding lower_def by simp
  moreover have "lower_char CHR ''.'' = CHR ''.''" by (simp only: lower_char_dot_iff)
  ultimately show "CHR ''.'' \<in> set (lower s)" by simp
qed

lemma spec_extension_lower: "spec_extension (lower s) = lower (spec_extension s)"
proof -
  have "(\<lambda>x. x \<noteq> CHR ''.'') \<circ> lower_char = (\<lambda>x. x \<noteq> CHR ''.'')"
    by (simp add: fun_eq_iff lower_char_dot_iff)
  then have "takeWhile (\<lambda>x. x \<noteq> CHR ''.'') (map lower_char (rev s))
      = map lower_char (takeWhile (\<lambda>x. x \<noteq> CHR ''.'') (rev s))"
    by (simp only: takeWhile_map)
  then have "rev (takeWhile (\<lambda>x. x \<noteq> CHR ''.'') (rev (lower s)))
      = lower (rev (takeWhile (\<lambda>x. x \<noteq> CHR ''.'') (rev s)))"
    by (simp only: lower_def rev_map)
  then show ?thesis
    unfolding spec_extension_def dot_in_lower_iff by (simp add: lower_def)
qed

lemma spec_extension_append:
  assumes "CHR ''.'' \<notin> set e"
  shows "spec_extension (b @ CHR ''.'' # e) = e"
proof -
  have "\<forall>x\<in>set (rev e). x \<noteq> CHR ''.''" using assms by auto
  then have tw: "takeWhile (\<lambda>x. x \<noteq> CHR ''.'') (rev e) = rev e"
    by (simp only: takeWhile_eq_all_conv)
  have "takeWhile (\<lambda>x. x \<noteq> CHR ''.'') (rev e @ CHR ''.'' # rev b)
      = takeWhile (\<lambda>x. x \<noteq> CHR ''.'') (rev e)"
    by (rule takeWhile_tail) simp
  then have "takeWhile (\<lambda>x. x \<noteq> CHR ''.'') (rev (b @ CHR ''.'' # e)) = rev e"
    using tw by simp
  then have "rev (takeWhile (\<lambda>x. x \<noteq> CHR ''.'') (rev (b @ CHR ''.'' # e))) = e"
    by (simp only: rev_rev_ident)
  then show ?thesis unfolding spec_extension_def by simp
qed

lemma endswith_imp_extension:
  assumes "endswith s supported_extensions"
  shows "spec_extension s \<in> set spec_video_extensions"
proof -
  from assms obtain p where p: "p \<in> set supported_extensions" "suffix p s"
    by (auto simp: endswith_def list_ex_iff)
  then obtain b where s: "s = b @ p" by (auto simp: suffix_def)
  from p(1) obtain e where e: "p = CHR ''.'' # e" "CHR ''.'' \<notin> set e"
      "e \<in> set spec_video_extensions"
    unfolding supported_extensions_def spec_video_extensions_def by auto
  have "spec_extension s = e" unfolding s e(1) using e(2) by (rule spec_extension_append)
  with e(3) show ?thesis by simp
qed

lemma extension_imp_endswith:
  assumes "spec_extension s \<in> set spec_video_extensions"
  shows "endswith s supported_extensions"
proof -
  let ?P = "\<lambda>x. x \<noteq> CHR ''.''"
  have ne: "spec_extension s \<noteq> []"
    using assms unfolding spec_video_extensions_def by auto
  have dot: "CHR ''.'' \<in> set s"
  proof (rule ccontr)
    assume "CHR ''.'' \<notin> set s"
    then have "spec_extension s = []" unfolding spec_extension_def by simp
    with ne show False by simp
  qed
  then have ext: "spec_extension s = rev (takeWhile ?P (rev s))"
    unfolding spec_extension_def by simp
  have dne: "dropWhile ?P (rev s) \<noteq> []"
  proof
    assume "dropWhile ?P (rev s) = []"
    then have "\<forall>x\<in>set (rev s). ?P x" by (simp only: dropWhile_eq_Nil_conv)
    with dot show False by auto
  qed
  then have "\<not> ?P (hd (dropWhile ?P (rev s)))" by (rule hd_dropWhile)
  then have "hd (dropWhile ?P (rev s)) = CHR ''.''" by simp
  with dne obtain d where d: "dropWhile ?P (rev s) = CHR ''.'' # d"
    by (cases "dropWhile ?P (rev s)") simp_all
  have "rev s = takeWhile ?P (rev s) @ dropWhile ?P (rev s)"
    by (simp only: takeWhile_dropWhile_id)
  then have "rev (rev s) = rev (takeWhile ?P (rev s) @ CHR ''.'' # d)"
    unfolding d by (rule arg_cong)
  then have "s = rev d @ CHR ''.'' # spec_extension s"
    unfolding ext by simp
  then have "suffix (CHR ''.'' # spec_extension s) s" by (rule suffixI)
  moreover have "CHR ''.'' # spec_extension s \<in> set supported_extensions"
    using assms unfolding supported_extensions_def spec_video_extensions_def by auto
  ultimately show ?thesis unfolding endswith_def list_ex_iff by blast
qed

section \<open>The transcript path shared by the trigger and the availability page\<close>

lemma splitext_clip:
  assumes "CHR ''.'' \<notin> set e" "CHR ''/'' \<notin> set e"
  shows "splitext (p @ ''_clip.'' @ e) = (p @ ''_clip'', CHR ''.'' # e)"
proof -
  have "CHR ''/'' \<notin> set ''_clip''" by simp
  then have "rfind (p @ ''_clip'') CHR ''/'' = rfind p CHR ''/''"
    by (rule rfind_append_absent)
  also have "\<dots> < int (length p)" by (rule rfind_lt_length)
  finally have k1: "rfind (p @ ''_clip'') CHR ''/'' < int (length p)" .
  have k2: "length p < length (p @ ''_clip'')" by simp
  have k3: "(p @ ''_clip'') ! length p \<noteq> CHR ''.''" by (simp add: nth_append)
  have "splitext ((p @ ''_clip'') @ CHR ''.'' # e) = (p @ ''_clip'', CHR ''.'' # e)"
    using assms k1 k2 k3 by (rule splitext_at_last_dot)
  then show ?thesis by simp
qed

lemma lower_mov: "lower ''.mov'' = ''.mov''"
  by (simp add: lower_def lower_char_def)

text \<open>
  Claim C1. For every job identifier, the trigger run on the object
  \<open>converted/{id}_clip.mov\<close> of the output bucket submits one job, and the output URI of that
  job is the output bucket followed by exactly the object name that \<open>download_options\<close>
  checks for the identifier \<open>{id}_clip.mov\<close>; both are
  \<open>transcriptions/converted/{id}_clip.json\<close>. (The client constructor is taken to
  succeed, so that the job is submitted.)
\<close>

theorem transcript_path_round_trip:
  "snd (process_video_transcription (env\<lparr>client_ctor_error := None\<rparr>)
         [''bucket'' \<mapsto> OUTPUT_BUCKET_NAME, ''name'' \<mapsto> ''converted/'' @ job_id @ ''_clip.mov''])
     = [\<lparr> input_uri = ''gs://'' @ OUTPUT_BUCKET_NAME @ ''/converted/'' @ job_id @ ''_clip.mov'',
          output_uri = ''gs://'' @ OUTPUT_BUCKET_NAME @ ''/''
                       @ transcription_blob_name (job_id @ ''_clip.mov''),
          language_code = ''en-US'',
          enable_automatic_punctuation = True,
          enable_speaker_diarization = True \<rparr>]
   \<and> transcription_blob_name (job_id @ ''_clip.mov'')
       = ''transcriptions/converted/'' @ job_id @ ''_clip.json''"
proof -
  let ?f = "''converted/'' @ job_id @ ''_clip.mov''"
  have sp1: "splitext ((''converted/'' @ job_id) @ ''_clip.'' @ ''mov'')
      = ((''converted/'' @ job_id) @ ''_clip'', ''.mov'')"
    by (rule splitext_clip) simp_all
  have sp2: "splitext (job_id @ ''_clip.'' @ ''mov'') = (job_id @ ''_clip'', ''.mov'')"
    by (rule splitext_clip) simp_all
  have tb: "transcription_blob_name (job_id @ ''_clip.mov'')
      = ''transcriptions/converted/'' @ job_id @ ''_clip.json''"
    using sp2 by (simp add: transcription_blob_name_def transcription_filename_def)
  have base: "fst (splitext ?f) = ''converted/'' @ job_id @ ''_clip''"
    using sp1 by simp
  have nstart: "\<not> startswith ?f OUTPUT_FOLDER"
    by (simp add: startswith_def OUTPUT_FOLDER_def)
  have "lower ?f = lower (''converted/'' @ job_id @ ''_clip'') @ lower ''.mov''"
    by (simp add: lower_def)
  then have "lower ?f = lower (''converted/'' @ job_id @ ''_clip'') @ ''.mov''"
    by (simp only: lower_mov)
  then have "suffix ''.mov'' (lower ?f)" by (rule suffixI)
  then have ext: "endswith (lower ?f) supported_extensions"
    by (simp add: endswith_def supported_extensions_def)
  have bn: "OUTPUT_BUCKET_NAME \<noteq> []" by (simp add: OUTPUT_BUCKET_NAME_def)
  show ?thesis
    using nstart ext bn base tb
    by (simp add: process_video_transcription_def Let_def OUTPUT_FOLDER_def
        split: sum.split)
qed

lemma download_options_checks:
  "io_log (snd (download_options True (\<lambda>name. None) identifier w))
     = io_log w @ [StoreExists OutputBucket (''converted/'' @ identifier),
                   StoreExists OutputBucket (transcription_blob_name identifier)]"
  by (simp add: download_options_def Let_def log_io_def video_blob_name_def)

lemma transcription_blob_name_stem:
  assumes "CHR ''.'' \<notin> set e" "CHR ''/'' \<notin> set e"
    and "rfind b CHR ''/'' < int k" "k < length b" "b ! k \<noteq> CHR ''.''"
  shows "transcription_blob_name (b @ CHR ''.'' # e) = ''transcriptions/converted/'' @ b @ ''.json''"
proof -
  have "splitext (b @ CHR ''.'' # e) = (b, CHR ''.'' # e)"
    using assms by (rule splitext_at_last_dot)
  then show ?thesis
    by (simp add: transcription_blob_name_def transcription_filename_def)
qed

text \<open>
  Claim C10. The transcript name looked up for an identifier is
  \<open>transcriptions/converted/\<close>, the identifier with its extension split off, and
  \<open>.json\<close>. Two identifiers \<open>b.e1\<close> and \<open>b.e2\<close> with the same stem \<open>b\<close> (whose last path
  component has a character other than a dot) and extensions without dot or slash are
  looked up under the same name \<open>transcriptions/converted/b.json\<close>; the derivation is
  not injective.
\<close>

theorem transcript_lookup_ignores_extension:
  assumes "CHR ''.'' \<notin> set e1" "CHR ''/'' \<notin> set e1"
    and "CHR ''.'' \<notin> set e2" "CHR ''/'' \<notin> set e2"
    and "rfind b CHR ''/'' < int k" "k < length b" "b ! k \<noteq> CHR ''.''"
  shows "transcription_blob_name (b @ CHR ''.'' # e1) = ''transcriptions/converted/'' @ b @ ''.json''
       \<and> transcription_blob_name (b @ CHR ''.'' # e2) = ''transcriptions/converted/'' @ b @ ''.json''
       \<and> transcription_blob_name identifier
           = ''transcriptions/converted/'' @ fst (splitext identifier) @ ''.json''
       \<and> \<not> inj transcription_blob_name"
proof -
  have a: "transcription_blob_name (b @ CHR ''.'' # e1) = ''transcriptions/converted/'' @ b @ ''.json''"
    using assms(1,2,5,6,7) by (rule transcription_blob_name_stem)
  have b: "transcription_blob_name (b @ CHR ''.'' # e2) = ''transcriptions/converted/'' @ b @ ''.json''"
    using assms(3,4,5,6,7) by (rule transcription_blob_name_stem)
  have c: "transcription_blob_name identifier
           = ''transcriptions/converted/'' @ fst (splitext identifier) @ ''.json''"
    by (simp add: transcription_blob_name_def transcription_filename_def)
  have "transcription_blob_name ''J_clip.mp4'' = transcription_blob_name ''J_clip.mov''"
    by code_simp
  moreover have "''J_clip.mp4'' \<noteq> ''J_clip.mov''" by simp
  ultimately have d: "\<not> inj transcription_blob_name"
    by (auto simp only: inj_def)
  from a b c d show ?thesis by simp
qed

theorem transcript_lookup_ignores_extension_witness:
  "transcription_blob_name ''J_clip.mp4'' = ''transcriptions/converted/J_clip.json''
   \<and> transcription_blob_name ''J_clip.mov'' = ''transcriptions/converted/J_clip.json''"
proof -
  have stem: "rfind ''J_clip'' CHR ''/'' < int 0" "(0::nat) < length ''J_clip''"
    "''J_clip'' ! 0 \<noteq> CHR ''.''"
    by code_simp+
  have ext: "CHR ''.'' \<notin> set ''mp4''" "CHR ''/'' \<notin> set ''mp4''"
    "CHR ''.'' \<notin> set ''mov''" "CHR ''/'' \<notin> set ''mov''" by simp_all
  note t = transcript_lookup_ignores_extension [OF ext stem]
  from t [THEN conjunct1]
  have a: "transcription_blob_name ''J_clip.mp4'' = ''transcriptions/converted/J_clip.json''"
    by simp
  from t [THEN conjunct2, THEN conjunct1]
  have b: "transcription_blob_name ''J_clip.mov'' = ''transcriptions/converted/J_clip.json''"
    by simp
  from a b show ?thesis by (rule conjI)
qed

section \<open>Which events the trigger discards, and how it ends\<close>

lemma unsupported_extension_discarded:
  assumes "\<not> endswith (lower file_name) supported_extensions"
    and "data ''name'' = Some file_name"
  shows "process_video_transcription env data = (Returned, [])"
  using assms
  by (simp add: process_video_transcription_def split: option.split)

lemma supported_extension_iff:
  "endswith (lower file_name) supported_extensions
     \<longleftrightarrow> lower (spec_extension file_name) \<in> set spec_video_extensions"
proof
  assume "endswith (lower file_name) supported_extensions"
  then have "spec_extension (lower file_name) \<in> set spec_video_extensions"
    by (rule endswith_imp_extension)
  then show "lower (spec_extension file_name) \<in> set spec_video_extensions"
    by (simp only: spec_extension_lower)
next
  assume "lower (spec_extension file_name) \<in> set spec_video_extensions"
  then have "spec_extension (lower file_name) \<in> set spec_video_extensions"
    by (simp only: spec_extension_lower)
  then show "endswith (lower file_name) supported_extensions"
    by (rule extension_imp_endswith)
qed

text \<open>
  Claim C6. An event whose object name has an extension (the text after the last dot)
  that, lowered, is not one of mp4, mov, avi, mpg, mpeg, mkv, webm is discarded: the
  handler returns and hands no request to \<open>annotate_video\<close>.
\<close>

theorem trigger_discards_unsupported_extension:
  assumes "data ''name'' = Some file_name"
    and "lower (spec_extension file_name) \<notin> set spec_video_extensions"
  shows "process_video_transcription env data = (Returned, [])"
proof -
  have "\<not> endswith (lower file_name) supported_extensions"
  proof
    assume "endswith (lower file_name) supported_extensions"
    then have "spec_extension (lower file_name) \<in> set spec_video_extensions"
      by (rule endswith_imp_extension)
    with assms(2) show False by (simp only: spec_extension_lower)
  qed
  then show ?thesis using assms(1) by (rule unsupported_extension_discarded)
qed

theorem trigger_discards_unsupported_extension_witness:
  "process_video_transcription
     \<lparr> client_ctor_error = None, annotate_video = (\<lambda>r. Inr ''operations/1'') \<rparr>
     [''bucket'' \<mapsto> ''video-image-input-bucket'', ''name'' \<mapsto> ''uploads/J_notes.TXT'']
   = (Returned, [])"
proof -
  have "lower (spec_extension ''uploads/J_notes.TXT'') \<notin> set spec_video_extensions"
    by code_simp
  moreover have "[''bucket'' \<mapsto> ''video-image-input-bucket'',
      ''name'' \<mapsto> ''uploads/J_notes.TXT''] ''name'' = Some ''uploads/J_notes.TXT''"
    by simp
  ultimately show ?thesis
    using trigger_discards_unsupported_extension by blast
qed

text \<open>
  Claim C8. An event whose object name ends with \<open>.json\<close>, whatever the case of its
  letters, fails the extension test itself, so no request is handed to
  \<open>annotate_video\<close> whatever the bucket and the prefix of the name.
\<close>

theorem trigger_never_retranscribes_json:
  assumes "data ''name'' = Some file_name"
    and "suffix ''.json'' (lower file_name)"
  shows "\<not> endswith (lower file_name) supported_extensions
       \<and> process_video_transcription env data = (Returned, [])"
proof -
  from assms(2) obtain b where b: "lower file_name = b @ CHR ''.'' # ''json''"
    by (auto simp: suffix_def)
  have "spec_extension (b @ CHR ''.'' # ''json'') = ''json''"
    by (rule spec_extension_append) simp
  then have ext: "spec_extension (lower file_name) = ''json''" by (simp only: b)
  have no: "\<not> endswith (lower file_name) supported_extensions"
  proof
    assume "endswith (lower file_name) supported_extensions"
    then have "spec_extension (lower file_name) \<in> set spec_video_extensions"
      by (rule endswith_imp_extension)
    then show False unfolding ext by (simp add: spec_video_extensions_def)
  qed
  moreover have "process_video_transcription env data = (Returned, [])"
    using no assms(1) by (rule unsupported_extension_discarded)
  ultimately show ?thesis by simp
qed

theorem trigger_never_retranscribes_json_witness:
  "\<not> endswith (lower ''converted/J_clip.JSON'') supported_extensions
   \<and> process_video_transcription
       \<lparr> client_ctor_error = None, annotate_video = (\<lambda>r. Inr ''operations/1'') \<rparr>
       [''bucket'' \<mapsto> ''video-image-output-bucket'', ''name'' \<mapsto> ''converted/J_clip.JSON'']
     = (Returned, [])"
proof -
  have "suffix ''.json'' (lower ''converted/J_clip.JSON'')"
    by code_simp
  moreover have "[''bucket'' \<mapsto> ''video-image-output-bucket'',
      ''name'' \<mapsto> ''converted/J_clip.JSON''] ''name'' = Some ''converted/J_clip.JSON''"
    by simp
  ultimately show ?thesis
    using trigger_never_retranscribes_json by blast
qed

text \<open>
  Claim C7 says that every failure while starting the job, the construction of the
  client included, is swallowed. The client is constructed before the \<open>try\<close> block:
  for an eligible event, an exception of the constructor leaves the handler.
\<close>

theorem client_construction_failure_raised:
  "fst (process_video_transcription
          \<lparr> client_ctor_error = Some ''DefaultCredentialsError'',
            annotate_video = (\<lambda>r. Inr ''operations/1'') \<rparr>
          [''bucket'' \<mapsto> ''video-image-input-bucket'', ''name'' \<mapsto> ''uploads/J_clip.mp4''])
   = Raised ''DefaultCredentialsError''"
  by code_simp

text \<open>
  Claim C7, amended. When the client is constructed, the handler returns normally
  whatever \<open>annotate_video\<close> does, for every event: an exception of the submission is
  caught by the \<open>except Exception\<close> clause.
\<close>

theorem trigger_swallows_submit_failures:
  "fst (process_video_transcription (env\<lparr>client_ctor_error := None\<rparr>) data) = Returned"
  by (simp add: process_video_transcription_def Let_def split: option.split sum.split)

section \<open>The names of one conversion job\<close>

lemma path_join_processing_dir:
  assumes "x \<noteq> []" "hd x \<noteq> CHR ''/''"
  shows "path_join TEMP_PROCESSING_DIR x = ''/tmp/videoconverter_processing/'' @ x"
proof -
  have a: "\<not> endswith TEMP_PROCESSING_DIR [''/'']" by code_simp
  have b: "TEMP_PROCESSING_DIR \<noteq> []" by (simp add: TEMP_PROCESSING_DIR_def)
  have c: "\<not> startswith x ''/''"
    using assms by (cases x) (simp_all add: startswith_def)
  have "path_join TEMP_PROCESSING_DIR x = TEMP_PROCESSING_DIR @ ''/'' @ x"
    using a b c by (simp add: path_join_def)
  then show ?thesis by (simp add: TEMP_PROCESSING_DIR_def)
qed

lemma derive_names_fields:
  "input_blob_name (derive_names j f t) = ''uploads/'' @ j @ ''_'' @ f"
  "output_blob_name (derive_names j f t) = ''converted/'' @ j @ ''_'' @ fst (splitext f) @ ''.'' @ t"
  "local_input_path (derive_names j f t) = ''/tmp/videoconverter_processing/input_'' @ j @ ''_'' @ f"
  "local_output_path (derive_names j f t)
     = ''/tmp/videoconverter_processing/output_'' @ j @ ''_'' @ fst (splitext f) @ ''.'' @ t"
  "gcs_input_filename (derive_names j f t) = j @ ''_'' @ f"
  "gcs_output_filename (derive_names j f t) = j @ ''_'' @ fst (splitext f) @ ''.'' @ t"
  by (simp_all add: derive_names_def Let_def path_join_processing_dir)

lemma local_paths_distinct:
  "local_input_path (derive_names j f t) \<noteq> local_output_path (derive_names j f t)"
  by (simp add: derive_names_fields)





section \<open>The steps of the conversion and the two stores\<close>

lemma log_io_fields [simp]:
  "input_bucket (log_io ev w) = input_bucket w"
  "output_bucket (log_io ev w) = output_bucket w"
  "local_files (log_io ev w) = local_files w"
  "io_log (log_io ev w) = io_log w @ [ev]"
  by (simp_all add: log_io_def)

lemma leave_file_fields [simp]:
  "input_bucket (leave_file p l w) = input_bucket w"
  "output_bucket (leave_file p l w) = output_bucket w"
  "io_log (leave_file p l w) = io_log w"
  "local_files (leave_file p l w) q
     = (if q = p then (case l of None \<Rightarrow> local_files w p | Some b \<Rightarrow> Some b)
        else local_files w q)"
  by (simp_all add: leave_file_def split: option.split)

lemma remove_if_exists_fields [simp]:
  "input_bucket (remove_if_exists env p w) = input_bucket w"
  "output_bucket (remove_if_exists env p w) = output_bucket w"
  "local_files (remove_if_exists env p w) q
     = (if q = p \<and> \<not> os_remove_fails env p then None else local_files w q)"
  by (auto simp: remove_if_exists_def)

lemma upload_input_step_buckets:
  "output_bucket (snd (upload_input_step env vf n w)) = output_bucket w"
  "local_files (snd (upload_input_step env vf n w)) = local_files w"
  "input_bucket (snd (upload_input_step env vf n w))
     = (case upload_from_file_error env of
          Some e \<Rightarrow> input_bucket w
        | None \<Rightarrow> (input_bucket w)(input_blob_name n \<mapsto>
            \<lparr> obj_data = stream vf, obj_content_type = Some (file_content_type vf) \<rparr>))"
  "(fst (upload_input_step env vf n w) = None) = (upload_from_file_error env = None)"
  by (simp_all add: upload_input_step_def Let_def split: option.split)

lemma download_input_step_buckets:
  "input_bucket (snd (download_input_step env n w)) = input_bucket w"
  "output_bucket (snd (download_input_step env n w)) = output_bucket w"
  by (simp_all add: download_input_step_def Let_def split: download_result.split option.split)

lemma download_input_step_ok:
  assumes "download_to_filename_result env = DlOk" "input_bucket w (input_blob_name n) = Some obj"
  shows "fst (download_input_step env n w) = None"
    and "local_files (snd (download_input_step env n w))
         = (local_files w)(local_input_path n \<mapsto> obj_data obj)"
  using assms by (simp_all add: download_input_step_def Let_def)

lemma ffmpeg_step_buckets:
  "input_bucket (snd (ffmpeg_step env n w)) = input_bucket w"
  "output_bucket (snd (ffmpeg_step env n w)) = output_bucket w"
  by (simp_all add: ffmpeg_step_def Let_def split: ffmpeg_result.split)

lemma ffmpeg_step_failed:
  assumes "ffmpeg_run_result env \<noteq> FfOk" "local_input_path n \<noteq> local_output_path n"
  shows "\<exists>d. fst (ffmpeg_step env n w) = Some (Abort 500 d)"
    and "local_files (snd (ffmpeg_step env n w)) q
         = (if q = local_input_path n \<and> \<not> os_remove_fails env (local_input_path n) then None
            else if q = local_output_path n
                 then (case ffmpeg_leaves_file env of
                         None \<Rightarrow> local_files w q | Some b \<Rightarrow> Some b)
            else local_files w q)"
  using assms by (auto simp: ffmpeg_step_def Let_def split: ffmpeg_result.split option.split)

lemma upload_output_step_buckets:
  "input_bucket (snd (upload_output_step env t n w)) = input_bucket w"
  "dom (output_bucket w) \<subseteq> dom (output_bucket (snd (upload_output_step env t n w)))"
  by (auto simp: upload_output_step_def Let_def split: option.split prod.split)

lemma upload_output_step_log:
  "\<exists>rest. io_log (snd (upload_output_step env t n w))
      = io_log w @ StorePut OutputBucket (output_blob_name n) None # rest"
  by (auto simp: upload_output_step_def Let_def remove_if_exists_def split: option.split prod.split)






text \<open>A request that passes the checks runs the four steps in turn.\<close>

lemma convert_video_steps:
  assumes "storage_client_ok env" "files request ''video'' = Some video_file"
    "filename video_file \<noteq> []" "form request ''format'' = Some target_format"
    "target_format \<noteq> []"
    and "n = derive_names (uuid4 env) (filename video_file) target_format"
    and "upload_input_step env video_file n w = (r1, w1)"
    and "download_input_step env n w1 = (r2, w2)"
    and "ffmpeg_step env n w2 = (r3, w3)"
    and "upload_output_step env target_format n w3 = (r4, w4)"
  shows "convert_video env request w =
     (case r1 of Some r \<Rightarrow> (r, w1) | None \<Rightarrow>
      (case r2 of Some r \<Rightarrow> (r, w2) | None \<Rightarrow>
       (case r3 of Some r \<Rightarrow> (r, w3) | None \<Rightarrow>
        (case r4 of Some r \<Rightarrow> (r, w4)
         | None \<Rightarrow> (Redirect (''/download_options/'' @ gcs_output_filename n), w4)))))"
  using assms(1-5) assms(7-10) [unfolded assms(6)]
  by (simp add: convert_video_def Let_def assms(6) split: option.split)

lemma convert_video_rejected:
  assumes "\<not> storage_client_ok env \<or> files request ''video'' = None
     \<or> form request ''format'' = None \<or> form request ''format'' = Some []
     \<or> (\<exists>vf. files request ''video'' = Some vf \<and> filename vf = [])"
  shows "snd (convert_video env request w) = w"
  using assms by (auto simp: convert_video_def split: option.split)

text \<open>
  Claim C9. Whatever the request and whatever the outside calls answer, every object of
  the input bucket and of the output bucket before the request is still there after it;
  and once the input upload has succeeded, the object \<open>uploads/{job_id}_{filename}\<close>
  holds the uploaded bytes when the request ends, on the success path and on every
  failure path.
\<close>

theorem store_objects_never_deleted:
  "dom (input_bucket w) \<subseteq> dom (input_bucket (snd (convert_video env request w)))
   \<and> dom (output_bucket w) \<subseteq> dom (output_bucket (snd (convert_video env request w)))
   \<and> (storage_client_ok env \<and> files request ''video'' = Some video_file
        \<and> filename video_file \<noteq> [] \<and> form request ''format'' = Some target_format
        \<and> target_format \<noteq> [] \<and> upload_from_file_error env = None
      \<longrightarrow> input_bucket (snd (convert_video env request w))
            (''uploads/'' @ uuid4 env @ ''_'' @ filename video_file)
          = Some \<lparr> obj_data = stream video_file,
                   obj_content_type = Some (file_content_type video_file) \<rparr>)"
proof (cases "storage_client_ok env \<and> (\<exists>vf t. files request ''video'' = Some vf
    \<and> filename vf \<noteq> [] \<and> form request ''format'' = Some t \<and> t \<noteq> [])")
  case False
  then have "\<not> storage_client_ok env \<or> files request ''video'' = None
     \<or> form request ''format'' = None \<or> form request ''format'' = Some []
     \<or> (\<exists>vf. files request ''video'' = Some vf \<and> filename vf = [])"
    by (cases "files request ''video''"; cases "form request ''format''") auto
  then have "snd (convert_video env request w) = w" by (rule convert_video_rejected)
  with False show ?thesis by auto
next
  case True
  then obtain vf t where v: "storage_client_ok env" "files request ''video'' = Some vf"
    "filename vf \<noteq> []" "form request ''format'' = Some t" "t \<noteq> []" by blast
  define n where "n = derive_names (uuid4 env) (filename vf) t"
  obtain r1 w1 where s1: "upload_input_step env vf n w = (r1, w1)" by (cases "upload_input_step env vf n w")
  obtain r2 w2 where s2: "download_input_step env n w1 = (r2, w2)" by (cases "download_input_step env n w1")
  obtain r3 w3 where s3: "ffmpeg_step env n w2 = (r3, w3)" by (cases "ffmpeg_step env n w2")
  obtain r4 w4 where s4: "upload_output_step env t n w3 = (r4, w4)"
    by (cases "upload_output_step env t n w3")
  note cv = convert_video_steps [OF v n_def s1 s2 s3 s4]
  have e1: "w1 = snd (upload_input_step env vf n w)" using s1 by simp
  have e2: "w2 = snd (download_input_step env n w1)" using s2 by simp
  have e3: "w3 = snd (ffmpeg_step env n w2)" using s3 by simp
  have e4: "w4 = snd (upload_output_step env t n w3)" using s4 by simp
  have i1: "input_bucket w1 = (case upload_from_file_error env of
          Some e \<Rightarrow> input_bucket w
        | None \<Rightarrow> (input_bucket w)(input_blob_name n \<mapsto>
            \<lparr> obj_data = stream vf, obj_content_type = Some (file_content_type vf) \<rparr>))"
    unfolding e1 by (rule upload_input_step_buckets)
  have o1: "output_bucket w1 = output_bucket w"
    unfolding e1 by (rule upload_input_step_buckets)
  have i2: "input_bucket w2 = input_bucket w1" and o2: "output_bucket w2 = output_bucket w1"
    unfolding e2 by (rule download_input_step_buckets)+
  have i3: "input_bucket w3 = input_bucket w2" and o3: "output_bucket w3 = output_bucket w2"
    unfolding e3 by (rule ffmpeg_step_buckets)+
  have i4: "input_bucket w4 = input_bucket w3"
    and o4: "dom (output_bucket w3) \<subseteq> dom (output_bucket w4)"
    unfolding e4 by (rule upload_output_step_buckets)+
  have fin: "snd (convert_video env request w) \<in> {w1, w2, w3, w4}"
    unfolding cv by (simp split: option.split)
  have inp: "input_bucket (snd (convert_video env request w)) = input_bucket w1"
    using fin i2 i3 i4 by auto
  have outp: "dom (output_bucket w) \<subseteq> dom (output_bucket (snd (convert_video env request w)))"
    using fin o1 o2 o3 o4 by auto
  have a: "dom (input_bucket w) \<subseteq> dom (input_bucket (snd (convert_video env request w)))"
    unfolding inp i1 by (auto split: option.split)
  have name: "input_blob_name n = ''uploads/'' @ uuid4 env @ ''_'' @ filename vf"
    unfolding n_def by (rule derive_names_fields)
  have c: "upload_from_file_error env = None \<Longrightarrow>
      input_bucket (snd (convert_video env request w))
            (''uploads/'' @ uuid4 env @ ''_'' @ filename vf)
          = Some \<lparr> obj_data = stream vf, obj_content_type = Some (file_content_type vf) \<rparr>"
    unfolding inp i1 name by simp
  from a outp c v show ?thesis by auto
qed

theorem store_objects_never_deleted_witness:
  "input_bucket (snd (convert_video failing_transcode_env (sample_request ''mov'') empty_world))
     ''uploads/0f8fad5b-d9cb-469f-a165-70867728950e_clip.mp4''
   = Some \<lparr> obj_data = ''source bytes'', obj_content_type = Some ''video/mp4'' \<rparr>"
proof -
  let ?vf = "\<lparr> filename = ''clip.mp4'', stream = ''source bytes'',
               file_content_type = ''video/mp4'' \<rparr>"
  have h: "storage_client_ok failing_transcode_env
      \<and> files (sample_request ''mov'') ''video'' = Some ?vf
      \<and> filename ?vf \<noteq> [] \<and> form (sample_request ''mov'') ''format'' = Some ''mov''
      \<and> ''mov'' \<noteq> [] \<and> upload_from_file_error failing_transcode_env = None"
    by (simp add: failing_transcode_env_def sample_env_def sample_request_def)
  have u: "uuid4 failing_transcode_env = ''0f8fad5b-d9cb-469f-a165-70867728950e''"
    by (simp add: failing_transcode_env_def sample_env_def sample_job_id_def)
  from store_objects_never_deleted
    [where env = failing_transcode_env and request = "sample_request ''mov''"
       and w = empty_world and video_file = ?vf and target_format = "''mov''",
     THEN conjunct2, THEN conjunct2, THEN mp, OF h]
  show ?thesis unfolding u by simp
qed

section \<open>Validation of the request\<close>

text \<open>
  Claim C2 says that a target format outside an allow-list is rejected before any I/O.
  The service has no such list: the format \<open>xyz\<close> passes the checks, the input is
  uploaded, fetched back and handed to the transcoder, and the result is uploaded.
\<close>

theorem unrecognised_format_reaches_store:
  "''xyz'' \<notin> set [''mp4'', ''mov'', ''avi'', ''mkv'', ''webm'']
   \<and> fst (convert_video sample_env (sample_request ''xyz'') empty_world)
       = Redirect ''/download_options/0f8fad5b-d9cb-469f-a165-70867728950e_clip.xyz''
   \<and> io_log (snd (convert_video sample_env (sample_request ''xyz'') empty_world))
       = [StorePut InputBucket ''uploads/0f8fad5b-d9cb-469f-a165-70867728950e_clip.mp4''
            (Some ''video/mp4''),
          StoreGet InputBucket ''uploads/0f8fad5b-d9cb-469f-a165-70867728950e_clip.mp4''
            ''/tmp/videoconverter_processing/input_0f8fad5b-d9cb-469f-a165-70867728950e_clip.mp4'',
          Transcode
            ''/tmp/videoconverter_processing/input_0f8fad5b-d9cb-469f-a165-70867728950e_clip.mp4''
            ''/tmp/videoconverter_processing/output_0f8fad5b-d9cb-469f-a165-70867728950e_clip.xyz'',
          StorePut OutputBucket ''converted/0f8fad5b-d9cb-469f-a165-70867728950e_clip.xyz'' None,
          LocalRemove
            ''/tmp/videoconverter_processing/input_0f8fad5b-d9cb-469f-a165-70867728950e_clip.mp4'',
          LocalRemove
            ''/tmp/videoconverter_processing/output_0f8fad5b-d9cb-469f-a165-70867728950e_clip.xyz'']"
  by code_simp

text \<open>
  Claim C2, amended. A request whose \<open>format\<close> field is missing or empty is rejected
  before any store or transcoder call: the world, its I/O log included, is unchanged and
  the response is an abort (400, or 500 when the storage client is missing).
\<close>

theorem empty_format_rejected_before_io:
  assumes "form request ''format'' = None \<or> form request ''format'' = Some []"
  shows "snd (convert_video env request w) = w
       \<and> fst (convert_video env request w)
           \<in> {Abort 500 ''Server configuration error: Storage client unavailable.'',
              Abort 400 ''Missing file.'',
              Abort 400 ''Invalid file or format selected.''}"
  using assms by (auto simp: convert_video_def split: option.split)

theorem empty_format_rejected_before_io_witness:
  "snd (convert_video sample_env (sample_request '''') empty_world) = empty_world
   \<and> fst (convert_video sample_env (sample_request '''') empty_world)
       = Abort 400 ''Invalid file or format selected.''"
proof -
  have h: "form (sample_request '''') ''format'' = None
      \<or> form (sample_request '''') ''format'' = Some []"
    by (simp add: sample_request_def)
  have "fst (convert_video sample_env (sample_request '''') empty_world)
       = Abort 400 ''Invalid file or format selected.''"
    by code_simp
  with empty_format_rejected_before_io [OF h, of sample_env empty_world]
  show ?thesis by simp
qed

section \<open>The content type of the converted object\<close>














section \<open>Local files after a failed transcode\<close>

text \<open>
  Claim C4 says that after a failed transcode neither local file exists. When the
  transcoder has written a partial output before failing, that file is still there when
  the error is returned.
\<close>

theorem partial_output_left_behind:
  "fst (convert_video failing_transcode_env (sample_request ''mov'') empty_world)
     = Abort 500 ''Error during conversion: Invalid data found when processing input''
   \<and> local_files (snd (convert_video failing_transcode_env (sample_request ''mov'') empty_world))
        ''/tmp/videoconverter_processing/output_0f8fad5b-d9cb-469f-a165-70867728950e_clip.mov''
       = Some ''partial bytes''"
  by code_simp

text \<open>
  Claim C4, amended. When the transcode step fails, the service aborts with 500 after
  trying to remove the local input file, and only that file: the local input file is gone
  unless \<open>os.remove\<close> raised, the local output file is whatever the transcoder left
  (untouched when it wrote nothing), and no other local file changes.
\<close>

theorem transcode_failure_removes_input_only:
  fixes env :: conv_env and request :: request and w :: world
  defines "w' \<equiv> snd (convert_video env request w)"
  assumes v: "storage_client_ok env" "files request ''video'' = Some video_file"
    "filename video_file \<noteq> []" "form request ''format'' = Some target_format"
    "target_format \<noteq> []"
    and n: "n = derive_names (uuid4 env) (filename video_file) target_format"
    and up: "upload_from_file_error env = None"
    and dl: "download_to_filename_result env = DlOk"
    and ff: "ffmpeg_run_result env \<noteq> FfOk"
  shows "(\<exists>d. fst (convert_video env request w) = Abort 500 d)
    \<and> local_files w' (local_input_path n)
        = (if os_remove_fails env (local_input_path n) then Some (stream video_file) else None)
    \<and> local_files w' (local_output_path n)
        = (case ffmpeg_leaves_file env of
             None \<Rightarrow> local_files w (local_output_path n) | Some b \<Rightarrow> Some b)
    \<and> (\<forall>q. q \<noteq> local_input_path n \<and> q \<noteq> local_output_path n
           \<longrightarrow> local_files w' q = local_files w q)"
proof -
  obtain r1 w1 where s1: "upload_input_step env video_file n w = (r1, w1)"
    by (cases "upload_input_step env video_file n w")
  obtain r2 w2 where s2: "download_input_step env n w1 = (r2, w2)"
    by (cases "download_input_step env n w1")
  obtain r3 w3 where s3: "ffmpeg_step env n w2 = (r3, w3)" by (cases "ffmpeg_step env n w2")
  obtain r4 w4 where s4: "upload_output_step env target_format n w3 = (r4, w4)"
    by (cases "upload_output_step env target_format n w3")
  note cv = convert_video_steps [OF v n s1 s2 s3 s4]
  have e1: "w1 = snd (upload_input_step env video_file n w)" using s1 by simp
  have e2: "w2 = snd (download_input_step env n w1)" using s2 by simp
  have e3: "w3 = snd (ffmpeg_step env n w2)" using s3 by simp
  have r1: "r1 = None"
    using upload_input_step_buckets(4) [where env = env and vf = video_file and n = n and w = w]
      s1 up by simp
  have l1: "local_files w1 = local_files w" unfolding e1 by (rule upload_input_step_buckets)
  have "input_bucket w1 (input_blob_name n)
      = Some \<lparr> obj_data = stream video_file,
                obj_content_type = Some (file_content_type video_file) \<rparr>"
    unfolding e1 upload_input_step_buckets using up by simp
  note ok = download_input_step_ok [OF dl this]
  have r2: "r2 = None" using ok(1) s2 by simp
  have l2: "local_files w2 = (local_files w)(local_input_path n \<mapsto> stream video_file)"
    unfolding e2 ok(2) l1 by simp
  have distinct: "local_input_path n \<noteq> local_output_path n"
    unfolding n by (rule local_paths_distinct)
  note failed = ffmpeg_step_failed [OF ff distinct, where w = w2]
  from failed(1) obtain d where r3: "r3 = Some (Abort 500 d)" using s3 by auto
  have res: "convert_video env request w = (Abort 500 d, w3)"
    unfolding cv r1 r2 r3 by simp
  have l3: "\<And>q. local_files w3 q
         = (if q = local_input_path n \<and> \<not> os_remove_fails env (local_input_path n) then None
            else if q = local_output_path n
                 then (case ffmpeg_leaves_file env of
                         None \<Rightarrow> local_files w2 q | Some b \<Rightarrow> Some b)
            else local_files w2 q)"
    unfolding e3 by (rule failed(2))
  have w': "w' = w3" unfolding w'_def res by simp
  show ?thesis
    unfolding w' using res distinct by (simp add: l3 l2 split: option.split)
qed

theorem transcode_failure_removes_input_only_witness:
  "fst (convert_video failing_transcode_env (sample_request ''mov'') empty_world)
     = Abort 500 ''Error during conversion: Invalid data found when processing input''
   \<and> local_files (snd (convert_video failing_transcode_env (sample_request ''mov'') empty_world))
        ''/tmp/videoconverter_processing/input_0f8fad5b-d9cb-469f-a165-70867728950e_clip.mp4''
       = None
   \<and> local_files (snd (convert_video failing_transcode_env (sample_request ''mov'') empty_world))
        ''/tmp/videoconverter_processing/output_0f8fad5b-d9cb-469f-a165-70867728950e_clip.mov''
       = Some ''partial bytes''"
proof -
  let ?vf = "\<lparr> filename = ''clip.mp4'', stream = ''source bytes'',
               file_content_type = ''video/mp4'' \<rparr>"
  let ?n = "derive_names (uuid4 failing_transcode_env) (filename ?vf) ''mov''"
  have h: "storage_client_ok failing_transcode_env"
      "files (sample_request ''mov'') ''video'' = Some ?vf"
      "filename ?vf \<noteq> []" "form (sample_request ''mov'') ''format'' = Some ''mov''"
      "''mov'' \<noteq> []" "?n = ?n"
      "upload_from_file_error failing_transcode_env = None"
      "download_to_filename_result failing_transcode_env = DlOk"
      "ffmpeg_run_result failing_transcode_env \<noteq> FfOk"
    by (simp_all add: failing_transcode_env_def sample_env_def sample_request_def)
  have i: "local_input_path ?n
      = ''/tmp/videoconverter_processing/input_0f8fad5b-d9cb-469f-a165-70867728950e_clip.mp4''"
    by code_simp
  have o: "local_output_path ?n
      = ''/tmp/videoconverter_processing/output_0f8fad5b-d9cb-469f-a165-70867728950e_clip.mov''"
    by code_simp
  have e: "\<not> os_remove_fails failing_transcode_env (local_input_path ?n)"
      "ffmpeg_leaves_file failing_transcode_env = Some ''partial bytes''"
    by (simp_all add: failing_transcode_env_def sample_env_def)
  have r: "fst (convert_video failing_transcode_env (sample_request ''mov'') empty_world)
     = Abort 500 ''Error during conversion: Invalid data found when processing input''"
    by code_simp
  note t = transcode_failure_removes_input_only [OF h, where w = empty_world]
  from t [THEN conjunct2, THEN conjunct1] e(1)
  have a: "local_files (snd (convert_video failing_transcode_env (sample_request ''mov'') empty_world))
        (local_input_path ?n) = None" by simp
  from t [THEN conjunct2, THEN conjunct2, THEN conjunct1]
  have b: "local_files (snd (convert_video failing_transcode_env (sample_request ''mov'') empty_world))
        (local_output_path ?n) = Some ''partial bytes''" unfolding e(2) by simp
  from r a b show ?thesis unfolding i o by simp
qed

end
